theory Spec2Isabelle
  imports Main "HOL-Library.Word"
begin

section \<open>The current-profile service (userDataProfileService.ts)\<close>

subsection \<open>Profiles and the heap of profile objects\<close>

text \<open>
  A profile is a JavaScript object. The service stores and compares references to such
  objects, so the fields of a profile are kept apart from the reference to it: \<open>ref\<close> is the
  identity of an object and a \<open>heap\<close> gives the (read-only) fields behind each reference.
  Two different references may carry the same fields, and in particular the same id.

  \<open>shortName\<close> is optional in the interface: \<open>None\<close> is \<^verbatim>\<open>undefined\<close>. The field
  \<^verbatim>\<open>id\<close> is called \<open>profile_id\<close> here, since \<open>id\<close> is the identity function of HOL.

  A string of the source is a sequence of UTF-16 code units, and its length and indices
  count code units: a \<open>jsstring\<close> is the list of the code units, each a word of 16 bits.
  \<open>utf16\<close> gives the string of an ASCII literal, one code unit for each character.
\<close>

type_synonym ref = nat

type_synonym code_unit = "16 word"

type_synonym jsstring = "code_unit list"

definition utf16 :: "string \<Rightarrow> jsstring" where
  "utf16 s = map of_char s"

record IUserDataProfile =
  profile_id :: jsstring
  name :: jsstring
  shortName :: "jsstring option"
  isDefault :: bool
  isTransient :: bool

type_synonym heap = "ref \<Rightarrow> IUserDataProfile"

record ThemeIcon =
  icon_id :: jsstring

subsection \<open>The string operations used by getShortName\<close>

text \<open>
  \<^verbatim>\<open>String.prototype.charAt(i)\<close>: the one-character string at index \<open>i\<close>, and the empty
  string when \<open>i\<close> is out of range (negative included).
\<close>

definition charAt :: "jsstring \<Rightarrow> int \<Rightarrow> jsstring" where
  "charAt s i = (if 0 \<le> i \<and> i < int (length s) then [s ! nat i] else [])"

text \<open>
  \<^verbatim>\<open>String.prototype.substring(start, end)\<close> on non-negative arguments: both are clamped
  to the length and swapped when \<open>start\<close> is the larger.
\<close>

definition substring :: "jsstring \<Rightarrow> nat \<Rightarrow> nat \<Rightarrow> jsstring" where
  "substring s start end' =
     (let a = min start (length s); b = min end' (length s)
      in take (max a b - min a b) (drop (min a b) s))"

text \<open>
  \<^verbatim>\<open>String.prototype.toUpperCase()\<close>. On a string of ASCII code units (all below 0x80)
  the letters a to z (0x61 to 0x7A) are moved to A to Z and every other code unit is kept.
  On any other string the result is given by the case mapping of Unicode, a table of the
  language that is not part of the sources; it may change the number of code units. That
  table is the parameter \<open>unicodeUpper\<close>: the upper-casing of the strings that have a code
  unit from 0x80 on.
\<close>

definition toUpperCase_ascii :: "code_unit \<Rightarrow> code_unit" where
  "toUpperCase_ascii c = (if 0x61 \<le> c \<and> c \<le> 0x7A then c - 0x20 else c)"

definition toUpperCase :: "(jsstring \<Rightarrow> jsstring) \<Rightarrow> jsstring \<Rightarrow> jsstring" where
  "toUpperCase unicodeUpper s =
     (if list_all (\<lambda>c. c < 0x80) s then map toUpperCase_ascii s else unicodeUpper s)"

text \<open>The truthiness of an optional string: \<^verbatim>\<open>undefined\<close> and the empty string are falsy.\<close>

definition truthy :: "jsstring option \<Rightarrow> bool" where
  "truthy s = (case s of None \<Rightarrow> False | Some v \<Rightarrow> v \<noteq> [])"

subsection \<open>getShortName\<close>

text \<open>
  \<^verbatim>\<open>defaultUserDataProfileIcon\<close> is the result of a call to \<^verbatim>\<open>registerIcon\<close>, which is
  declared in another file; the icon is a parameter of the model, and so is the case
  mapping of Unicode. The template literals of the source are written as concatenations.
\<close>

definition getShortName ::
  "ThemeIcon \<Rightarrow> (jsstring \<Rightarrow> jsstring) \<Rightarrow> IUserDataProfile \<Rightarrow> jsstring" where
  "getShortName defaultUserDataProfileIcon unicodeUpper p =
     (if isDefault p then utf16 ''$('' @ icon_id defaultUserDataProfileIcon @ utf16 '')''
      else if truthy (shortName p) then the (shortName p)
      else if isTransient p
        then utf16 ''T'' @ charAt (name p) (int (length (name p)) - 1)
      else toUpperCase unicodeUpper (substring (name p) 0 2))"

subsection \<open>Promises\<close>

text \<open>
  A promise of type \<^verbatim>\<open>Promise<void>\<close> is modelled by the way it ends: it is fulfilled, it
  is rejected with an error, or it never settles. Whoever awaits a promise that never
  settles never resumes, so \<open>NeverSettles\<close> is also the result of such an await.

  A joiner task runs after the listener that created it was called and may read the
  current profile of the service while it runs: a task is a function from the reference
  it reads to the way it ends.
\<close>

datatype 'e promise = NeverSettles | Fulfilled | Rejected 'e

type_synonym 'e task = "ref \<Rightarrow> 'e promise"

definition rejections :: "'e promise list \<Rightarrow> 'e list" where
  "rejections ps = concat (map (\<lambda>p. case p of Rejected x \<Rightarrow> [x] | _ \<Rightarrow> []) ps)"

text \<open>
  Modelled from the spec: \<^verbatim>\<open>Promises.settled\<close> of \<^verbatim>\<open>vs/base/common/async\<close>, which is
  not among the sources. The spec: the failure of each task is captured individually, the
  operation waits for all tasks to settle (the first failure does not short-circuit), and
  if one or more tasks failed the result fails, carrying the aggregate of those failures.
\<close>

definition settled :: "'e promise list \<Rightarrow> 'e list promise" where
  "settled ps =
     (if NeverSettles \<in> set ps then NeverSettles
      else if rejections ps = [] then Fulfilled
      else Rejected (rejections ps))"

subsection \<open>Events, listeners and emitters\<close>

text \<open>
  The event of a switch. Its \<^verbatim>\<open>join\<close> method pushes a promise onto the array
  \<^verbatim>\<open>joiners\<close> of the running switch and does nothing else, so a listener is modelled with
  the list of the tasks it passes to \<^verbatim>\<open>join\<close>, in the order of its calls.
\<close>

record DidChangeUserDataProfileEvent =
  preserveData :: bool
  previous :: ref
  profile :: ref

text \<open>The batch of the catalog's change feed; the service reads \<open>updated\<close> only.\<close>

record DidChangeProfilesEvent =
  added :: "ref list"
  removed :: "ref list"
  updated :: "ref list"

text \<open>
  Listeners are code of other components. A listener transforms the state \<open>'w\<close> of the
  world outside the service; its first argument is what the getter \<^verbatim>\<open>currentProfile\<close>
  returns while the listener runs. A listener does not call back into the service and
  does not throw.
\<close>

type_synonym ('w, 'e) change_listener =
  "ref \<Rightarrow> DidChangeUserDataProfileEvent \<Rightarrow> 'w \<Rightarrow> 'w \<times> 'e task list"

type_synonym 'w update_listener = "ref \<Rightarrow> 'w \<Rightarrow> 'w"

text \<open>
  Modelled from the spec: \<^verbatim>\<open>Emitter\<close> of \<^verbatim>\<open>vs/base/common/event\<close>, which is not among
  the sources. The spec: an emitter is an ordered registry of listeners; firing it invokes
  every registered listener synchronously, in registration order. An emitter is the list
  of its listeners, \<open>subscribe\<close> registers one more, and there is one \<open>fire\<close> for each of
  the two event types of the service. \<open>fire_change\<close> carries the array \<^verbatim>\<open>joiners\<close> along,
  to which the \<^verbatim>\<open>join\<close> calls of each listener are appended.
\<close>

definition subscribe :: "'l list \<Rightarrow> 'l \<Rightarrow> 'l list" where
  "subscribe emitter l = emitter @ [l]"

fun fire_change ::
  "('w, 'e) change_listener list \<Rightarrow> ref \<Rightarrow> DidChangeUserDataProfileEvent \<Rightarrow>
   'w \<times> 'e task list \<Rightarrow> 'w \<times> 'e task list" where
  "fire_change [] cur e (w, joiners) = (w, joiners)"
| "fire_change (l # ls) cur e (w, joiners) =
     (let (w', joined) = l cur e w in fire_change ls cur e (w', joiners @ joined))"

fun fire_update :: "'w update_listener list \<Rightarrow> ref \<Rightarrow> 'w \<Rightarrow> 'w" where
  "fire_update [] cur w = w"
| "fire_update (l # ls) cur w = fire_update ls cur (l cur w)"

subsection \<open>The service\<close>

text \<open>
  The state of a \<^verbatim>\<open>UserDataProfileService\<close>: the private field \<^verbatim>\<open>_currentProfile\<close> and
  the two emitters (an identifier of Isabelle cannot start with an underscore).
\<close>

record ('w, 'e) UserDataProfileService =
  currentProfile :: ref
  onDidChangeCurrentProfile :: "('w, 'e) change_listener list"
  onDidUpdateCurrentProfile :: "'w update_listener list"

text \<open>The constructor, without the subscription to the catalog, which is the next definition.\<close>

definition new_UserDataProfileService :: "ref \<Rightarrow> ('w, 'e) UserDataProfileService" where
  "new_UserDataProfileService currentProfile' =
     \<lparr>currentProfile = currentProfile', onDidChangeCurrentProfile = [],
      onDidUpdateCurrentProfile = []\<rparr>"

text \<open>
  The listener that the constructor registers on \<^verbatim>\<open>onDidChangeProfiles\<close> of the catalog.
  \<^verbatim>\<open>Array.prototype.find\<close> returns the first element that satisfies the predicate, or
  \<^verbatim>\<open>undefined\<close>; an object is always truthy. The result is the new state of the service
  and of the world.
\<close>

definition onDidChangeProfiles ::
  "heap \<Rightarrow> ('w, 'e) UserDataProfileService \<Rightarrow> DidChangeProfilesEvent \<Rightarrow> 'w \<Rightarrow>
   ('w, 'e) UserDataProfileService \<times> 'w" where
  "onDidChangeProfiles h this e w =
     (case find (\<lambda>p. profile_id (h (currentProfile this)) = profile_id (h p)) (updated e) of
        Some updatedCurrentProfile \<Rightarrow>
          (let this' = this\<lparr>currentProfile := updatedCurrentProfile\<rparr>
           in (this', fire_update (onDidUpdateCurrentProfile this') (currentProfile this') w))
      | None \<Rightarrow> (this, w))"

text \<open>
  What a call of \<^verbatim>\<open>updateCurrentProfile\<close> leaves behind: the service, the world, the
  array \<^verbatim>\<open>joiners\<close> as it is when the function awaits (empty when the function returns
  before creating it), and the way the returned promise ends. The assignments and the dispatch happen before the await, so the service and the
  world are as given here also when the returned promise never settles.
\<close>

record ('w, 'e) switched =
  service :: "('w, 'e) UserDataProfileService"
  world :: 'w
  joiners :: "'e task list"
  returned :: "'e list promise"

definition updateCurrentProfile ::
  "heap \<Rightarrow> ('w, 'e) UserDataProfileService \<Rightarrow> ref \<Rightarrow> bool \<Rightarrow> 'w \<Rightarrow> ('w, 'e) switched" where
  "updateCurrentProfile h this userDataProfile preserveData' w =
     (if profile_id (h (currentProfile this)) = profile_id (h userDataProfile)
      then \<lparr>service = this, world = w, joiners = [], returned = Fulfilled\<rparr>
      else
        (let previous' = currentProfile this;
             this' = this\<lparr>currentProfile := userDataProfile\<rparr>;
             (w', joiners') =
                fire_change (onDidChangeCurrentProfile this') (currentProfile this')
                  \<lparr>preserveData = preserveData', previous = previous',
                   profile = userDataProfile\<rparr>
                  (w, [])
         in \<lparr>service = this', world = w', joiners = joiners',
             returned = settled (map (\<lambda>t. t (currentProfile this')) joiners')\<rparr>))"

subsection \<open>Probes\<close>

text \<open>
  To observe which listeners a call invokes, in which order and with which arguments, a
  listener is wrapped in a probe: the probe behaves as the listener and appends a record
  of the call to a log kept in the world. \<open>probed\<close> is a service whose listeners are all
  wrapped, each with its position in the registry.
\<close>

datatype call =
  ChangeListener nat ref DidChangeUserDataProfileEvent
| UpdateListener nat ref

definition probe_change ::
  "nat \<Rightarrow> ('w, 'e) change_listener \<Rightarrow> ('w \<times> call list, 'e) change_listener" where
  "probe_change i l cur e =
     (\<lambda>(w, log). let (w', joined) = l cur e w in ((w', log @ [ChangeListener i cur e]), joined))"

definition probe_update :: "nat \<Rightarrow> 'w update_listener \<Rightarrow> ('w \<times> call list) update_listener" where
  "probe_update i l cur = (\<lambda>(w, log). (l cur w, log @ [UpdateListener i cur]))"

definition probed ::
  "ref \<Rightarrow> ('w, 'e) change_listener list \<Rightarrow> 'w update_listener list \<Rightarrow>
   ('w \<times> call list, 'e) UserDataProfileService" where
  "probed cur cls uls =
     \<lparr>currentProfile = cur,
      onDidChangeCurrentProfile = map (\<lambda>(i, l). probe_change i l) (enumerate 0 cls),
      onDidUpdateCurrentProfile = map (\<lambda>(i, l). probe_update i l) (enumerate 0 uls)\<rparr>"

subsection \<open>Example objects\<close>

text \<open>
  A heap with the default profile (reference 0), a profile \<open>work\<close> held by two objects with
  the same fields (references 1 and 2), an object for \<open>work\<close> with other fields
  (reference 3), and a profile \<open>home\<close> (all other references). The listeners write their
  name into a world that is a list of names; \<open>L1\<close> joins a task that reads the current
  profile and a task that fails, \<open>L_stuck\<close> joins a task that never settles.
\<close>

definition example_heap :: heap where
  "example_heap r =
     (if r = 0 then \<lparr>profile_id = utf16 ''__default__profile__'', name = utf16 ''Default'',
                      shortName = None, isDefault = True, isTransient = False\<rparr>
      else if r = 1 \<or> r = 2 then \<lparr>profile_id = utf16 ''work'', name = utf16 ''Work'',
                      shortName = None, isDefault = False, isTransient = False\<rparr>
      else if r = 3 then \<lparr>profile_id = utf16 ''work'', name = utf16 ''Work (renamed)'',
                      shortName = Some (utf16 ''WK''), isDefault = False,
                      isTransient = False\<rparr>
      else \<lparr>profile_id = utf16 ''home'', name = utf16 ''Home'',
             shortName = None, isDefault = False, isTransient = False\<rparr>)"

definition L1 :: "(string list, string) change_listener" where
  "L1 cur e w =
     (w @ [''L1''],
      [\<lambda>r. if r = profile e then Fulfilled else Rejected ''stale'', \<lambda>r. Rejected ''disk full''])"

definition L2 :: "(string list, string) change_listener" where
  "L2 cur e w = (w @ [''L2''], [\<lambda>r. Fulfilled])"

definition L3 :: "(string list, string) change_listener" where
  "L3 cur e w = (w @ [''L3''], [])"

definition L_stuck :: "(string list, string) change_listener" where
  "L_stuck cur e w = (w @ [''stuck''], [\<lambda>r. NeverSettles])"

definition U1 :: "string list update_listener" where
  "U1 cur w = w @ [''U1'']"

section \<open>Auxiliary lemmas\<close>

lemmas ex_defs = example_heap_def utf16_def L1_def L2_def L3_def L_stuck_def U1_def

lemma substring_0_2: "substring s 0 2 = take 2 s"
  by (simp add: substring_def Let_def min_def)

lemma charAt_last: "charAt s (int (length s) - 1) = (if s = [] then [] else [last s])"
  by (cases s rule: rev_cases) (simp_all add: charAt_def nth_append)

lemma probe_change_apply:
  "probe_change i l cur e (w, log) =
     (let (w', joined) = l cur e w in ((w', log @ [ChangeListener i cur e]), joined))"
  by (simp add: probe_change_def)

lemma probe_update_apply:
  "probe_update i l cur (w, log) = (l cur w, log @ [UpdateListener i cur])"
  by (simp add: probe_update_def)

lemma upt_shift: "[k..<Suc (k + n)] = k # [Suc k..<Suc k + n]"
  by (simp add: upt_rec)

lemma fire_change_probes:
  "fire_change (map (\<lambda>(i, l). probe_change i l) (enumerate k ls)) cur e ((w, log), js) =
     (let (w', js') = fire_change ls cur e (w, js)
      in ((w', log @ map (\<lambda>i. ChangeListener i cur e) [k..<k + length ls]), js'))"
proof (induction ls arbitrary: k w log js)
  case Nil
  then show ?case by simp
next
  case (Cons l ls)
  show ?case
    by (simp add: probe_change_apply Cons.IH upt_shift split: prod.splits del: upt_Suc)
qed

lemma fire_update_probes:
  "fire_update (map (\<lambda>(i, l). probe_update i l) (enumerate k ls)) cur (w, log) =
     (fire_update ls cur w, log @ map (\<lambda>i. UpdateListener i cur) [k..<k + length ls])"
proof (induction ls arbitrary: k w log)
  case Nil
  then show ?case by simp
next
  case (Cons l ls)
  show ?case
    by (simp add: probe_update_apply Cons.IH upt_shift del: upt_Suc)
qed

lemma fire_change_append:
  "fire_change (xs @ ys) cur e s = fire_change ys cur e (fire_change xs cur e s)"
proof (induction xs arbitrary: s)
  case Nil
  then show ?case by (cases s) simp
next
  case (Cons l xs)
  obtain w js where s: "s = (w, js)" by (cases s)
  show ?case
    by (simp add: s Cons.IH split: prod.splits)
qed

lemma find_first:
  assumes "k < length xs" "P (xs ! k)" "\<forall>j<k. \<not> P (xs ! j)"
  shows "find P xs = Some (xs ! k)"
  using assms
proof (induction xs arbitrary: k)
  case Nil
  then show ?case by simp
next
  case (Cons x xs)
  show ?case
  proof (cases k)
    case 0
    with Cons.prems show ?thesis by simp
  next
    case (Suc k')
    from Cons.prems Suc have "\<not> P x" by (metis nth_Cons_0 zero_less_Suc)
    moreover from Cons.prems Suc have "find P xs = Some (xs ! k')"
      by (intro Cons.IH) auto
    ultimately show ?thesis using Suc by simp
  qed
qed

lemma find_none: "(\<forall>x\<in>set xs. \<not> P x) \<Longrightarrow> find P xs = None"
  by (simp add: find_None_iff)

lemma rejections_set: "set (rejections ps) = {x. Rejected x \<in> set ps}"
proof (induction ps)
  case Nil
  then show ?case by (simp add: rejections_def)
next
  case (Cons p ps)
  then show ?case by (cases p) (auto simp: rejections_def)
qed

lemma settled_NeverSettles: "settled ps = NeverSettles \<longleftrightarrow> NeverSettles \<in> set ps"
  by (simp add: settled_def)

lemma settled_Rejected:
  "settled ps = Rejected agg \<longleftrightarrow>
     NeverSettles \<notin> set ps \<and> (\<exists>x. Rejected x \<in> set ps) \<and> agg = rejections ps"
proof -
  have "rejections ps = [] \<longleftrightarrow> set (rejections ps) = {}" by simp
  also have "\<dots> \<longleftrightarrow> \<not> (\<exists>x. Rejected x \<in> set ps)"
    unfolding rejections_set by blast
  finally have "rejections ps \<noteq> [] \<longleftrightarrow> (\<exists>x. Rejected x \<in> set ps)" by simp
  then show ?thesis by (auto simp: settled_def)
qed

lemma updateCurrentProfile_switch:
  assumes "profile_id (h (currentProfile this)) \<noteq> profile_id (h target)"
  shows "updateCurrentProfile h this target pd w =
     (let res = fire_change (onDidChangeCurrentProfile this) target
                  \<lparr>preserveData = pd, previous = currentProfile this, profile = target\<rparr> (w, [])
      in \<lparr>service = this\<lparr>currentProfile := target\<rparr>, world = fst res, joiners = snd res,
          returned = settled (map (\<lambda>t. t target) (snd res))\<rparr>)"
  using assms by (simp add: updateCurrentProfile_def Let_def split: prod.splits)

lemma toUpperCase_ascii_map:
  "map toUpperCase_ascii s = map (\<lambda>c. if 0x61 \<le> c \<and> c \<le> 0x7A then c - 0x20 else c) s"
  by (simp add: toUpperCase_ascii_def)

lemma fire_change_tasks:
  "snd (fire_change ls cur e (w, js)) =
     js @ concat (map (\<lambda>i. snd ((ls ! i) cur e (fst (fire_change (take i ls) cur e (w, js)))))
                      [0..<length ls])"
proof (induction ls rule: rev_induct)
  case Nil
  then show ?case by simp
next
  case (snoc l xs)
  let ?F = "\<lambda>ls i. snd ((ls ! i) cur e (fst (fire_change (take i ls) cur e (w, js))))"
  obtain w1 js1 where xs: "fire_change xs cur e (w, js) = (w1, js1)"
    by (cases "fire_change xs cur e (w, js)")
  obtain w2 joined where l: "l cur e w1 = (w2, joined)" by (cases "l cur e w1")
  have js1: "js1 = js @ concat (map (?F xs) [0..<length xs])"
    using snoc.IH by (simp add: xs)
  have same: "map (?F (xs @ [l])) [0..<length xs] = map (?F xs) [0..<length xs]"
    by (rule map_cong) (simp_all add: nth_append)
  have final: "?F (xs @ [l]) (length xs) = joined"
    by (simp add: xs l)
  have "concat (map (?F (xs @ [l])) [0..<length (xs @ [l])]) =
      concat (map (?F (xs @ [l])) [0..<length xs]) @ ?F (xs @ [l]) (length xs)"
    by simp
  also have "\<dots> = concat (map (?F xs) [0..<length xs]) @ joined"
    by (simp only: same final)
  finally have rhs: "concat (map (?F (xs @ [l])) [0..<length (xs @ [l])]) =
      concat (map (?F xs) [0..<length xs]) @ joined" .
  have "snd (fire_change (xs @ [l]) cur e (w, js)) = js1 @ joined"
    by (simp add: fire_change_append xs l)
  also have "\<dots> = js @ concat (map (?F (xs @ [l])) [0..<length (xs @ [l])])"
    by (simp only: rhs js1 append_assoc)
  finally show ?case .
qed

lemma settled_Fulfilled: "settled ps = Fulfilled \<longleftrightarrow> (\<forall>p\<in>set ps. p = Fulfilled)"
proof -
  have "rejections ps = [] \<longleftrightarrow> set (rejections ps) = {}" by simp
  also have "\<dots> \<longleftrightarrow> \<not> (\<exists>x. Rejected x \<in> set ps)"
    unfolding rejections_set by blast
  finally have rej: "rejections ps = [] \<longleftrightarrow> \<not> (\<exists>x. Rejected x \<in> set ps)" .
  show ?thesis
  proof
    assume "settled ps = Fulfilled"
    then have a: "NeverSettles \<notin> set ps" and b: "\<not> (\<exists>x. Rejected x \<in> set ps)"
      using rej by (auto simp: settled_def split: if_splits)
    show "\<forall>p\<in>set ps. p = Fulfilled"
    proof
      fix p assume "p \<in> set ps"
      with a b show "p = Fulfilled" by (cases p) auto
    qed
  next
    assume all: "\<forall>p\<in>set ps. p = Fulfilled"
    then have "NeverSettles \<notin> set ps" and "\<not> (\<exists>x. Rejected x \<in> set ps)" by auto
    with rej show "settled ps = Fulfilled" by (simp add: settled_def)
  qed
qed

lemma probed_switch:
  assumes "profile_id (h cur) \<noteq> profile_id (h target)"
  shows "updateCurrentProfile h (probed cur cls uls) target pd (w, []) =
     (let ev = \<lparr>preserveData = pd, previous = cur, profile = target\<rparr>;
          res = fire_change cls target ev (w, [])
      in \<lparr>service = probed target cls uls,
          world = (fst res, map (\<lambda>i. ChangeListener i target ev) [0..<length cls]),
          joiners = snd res,
          returned = settled (map (\<lambda>t. t target) (snd res))\<rparr>)"
proof -
  have "profile_id (h (currentProfile (probed cur cls uls))) \<noteq> profile_id (h target)"
    using assms by (simp add: probed_def)
  from updateCurrentProfile_switch [OF this, of pd "(w, [])"] show ?thesis
    by (simp add: probed_def fire_change_probes Let_def split: prod.splits)
qed

lemma probed_reconcile_found:
  assumes "k < length (updated e)"
    and "profile_id (h (updated e ! k)) = profile_id (h cur)"
    and "\<forall>j<k. profile_id (h (updated e ! j)) \<noteq> profile_id (h cur)"
  shows "onDidChangeProfiles h (probed cur cls uls) e (w, []) =
           (probed (updated e ! k) cls uls,
            (fire_update uls (updated e ! k) w,
             map (\<lambda>i. UpdateListener i (updated e ! k)) [0..<length uls]))"
proof -
  have "find (\<lambda>p. profile_id (h cur) = profile_id (h p)) (updated e) = Some (updated e ! k)"
    using assms by (intro find_first) auto
  then show ?thesis
    by (simp add: onDidChangeProfiles_def probed_def fire_update_probes)
qed

section \<open>getShortName\<close>

text \<open>
  Claim C5. \<open>getShortName\<close> follows this precedence: a default profile gives the
  reserved token, whatever its other fields are; otherwise a non-empty \<open>shortName\<close> is
  returned as it is; otherwise a transient profile gives the transient token; otherwise
  the result is the first two code units of \<open>name\<close> in upper case: for ASCII code units
  the letters a to z become A to Z and all else is kept, and any other string is mapped
  by the case mapping of Unicode. A name of fewer than two code units gives the whole
  name in upper case, and for an ASCII name the result is as long as the name, so nothing
  is added. The default profile yields the reserved token, \<open>shortName = AB\<close> yields
  \<open>AB\<close>, the name \<open>alpha\<close> yields \<open>AL\<close> and the name \<open>x\<close> yields \<open>X\<close>.
\<close>

theorem getShortName_precedence:
  "getShortName icon U p =
     (if isDefault p then utf16 ''$('' @ icon_id icon @ utf16 '')''
      else if shortName p \<noteq> None \<and> shortName p \<noteq> Some [] then the (shortName p)
      else if isTransient p then utf16 ''T'' @ (if name p = [] then [] else [last (name p)])
      else if list_all (\<lambda>c. c < 0x80) (take 2 (name p))
        then map (\<lambda>c. if 0x61 \<le> c \<and> c \<le> 0x7A then c - 0x20 else c) (take 2 (name p))
      else U (take 2 (name p)))
   \<and> (isDefault p \<longrightarrow>
        getShortName icon U p =
        getShortName icon U'
          (p\<lparr>profile_id := i', name := n', shortName := s', isTransient := t'\<rparr>))
   \<and> (\<not> isDefault p \<and> \<not> truthy (shortName p) \<and> \<not> isTransient p \<and> length (name p) < 2 \<longrightarrow>
        getShortName icon U p = toUpperCase U (name p)
        \<and> (list_all (\<lambda>c. c < 0x80) (name p) \<longrightarrow>
             length (getShortName icon U p) = length (name p)))
   \<and> toUpperCase U (utf16 ''abcdefghijklmnopqrstuvwxyz'') =
       utf16 ''ABCDEFGHIJKLMNOPQRSTUVWXYZ''
   \<and> getShortName icon U \<lparr>profile_id = i', name = n', shortName = s', isDefault = True,
        isTransient = t'\<rparr> = utf16 ''$('' @ icon_id icon @ utf16 '')''
   \<and> getShortName icon U \<lparr>profile_id = i', name = n', shortName = Some (utf16 ''AB''),
        isDefault = False, isTransient = t'\<rparr> = utf16 ''AB''
   \<and> getShortName icon U \<lparr>profile_id = i', name = utf16 ''alpha'', shortName = None,
        isDefault = False, isTransient = False\<rparr> = utf16 ''AL''
   \<and> getShortName icon U \<lparr>profile_id = i', name = utf16 ''x'', shortName = None,
        isDefault = False, isTransient = False\<rparr> = utf16 ''X''"
proof -
  have general: "getShortName icon U p =
     (if isDefault p then utf16 ''$('' @ icon_id icon @ utf16 '')''
      else if shortName p \<noteq> None \<and> shortName p \<noteq> Some [] then the (shortName p)
      else if isTransient p then utf16 ''T'' @ (if name p = [] then [] else [last (name p)])
      else if list_all (\<lambda>c. c < 0x80) (take 2 (name p))
        then map (\<lambda>c. if 0x61 \<le> c \<and> c \<le> 0x7A then c - 0x20 else c) (take 2 (name p))
      else U (take 2 (name p)))"
    by (cases "shortName p")
      (simp_all add: getShortName_def truthy_def substring_0_2 charAt_last toUpperCase_def
        toUpperCase_ascii_map)
  have default: "isDefault p \<longrightarrow>
        getShortName icon U p =
        getShortName icon U'
          (p\<lparr>profile_id := i', name := n', shortName := s', isTransient := t'\<rparr>)"
    by (simp add: getShortName_def)
  have short: "\<not> isDefault p \<and> \<not> truthy (shortName p) \<and> \<not> isTransient p \<and>
        length (name p) < 2 \<longrightarrow>
        getShortName icon U p = toUpperCase U (name p)
        \<and> (list_all (\<lambda>c. c < 0x80) (name p) \<longrightarrow>
             length (getShortName icon U p) = length (name p))"
    by (simp add: getShortName_def substring_0_2 toUpperCase_def)
  have alphabet: "toUpperCase U (utf16 ''abcdefghijklmnopqrstuvwxyz'') =
       utf16 ''ABCDEFGHIJKLMNOPQRSTUVWXYZ''"
    by (simp add: utf16_def toUpperCase_def toUpperCase_ascii_def)
  have c1: "getShortName icon U \<lparr>profile_id = i', name = n', shortName = s', isDefault = True,
        isTransient = t'\<rparr> = utf16 ''$('' @ icon_id icon @ utf16 '')''"
    by (simp add: getShortName_def)
  have c2: "getShortName icon U \<lparr>profile_id = i', name = n', shortName = Some (utf16 ''AB''),
        isDefault = False, isTransient = t'\<rparr> = utf16 ''AB''"
    by (simp add: getShortName_def truthy_def utf16_def)
  have c3: "getShortName icon U \<lparr>profile_id = i', name = utf16 ''alpha'', shortName = None,
        isDefault = False, isTransient = False\<rparr> = utf16 ''AL''"
    by (simp add: getShortName_def truthy_def utf16_def substring_0_2 toUpperCase_def
        toUpperCase_ascii_def)
  have c4: "getShortName icon U \<lparr>profile_id = i', name = utf16 ''x'', shortName = None,
        isDefault = False, isTransient = False\<rparr> = utf16 ''X''"
    by (simp add: getShortName_def truthy_def utf16_def substring_0_2 toUpperCase_def
        toUpperCase_ascii_def)
  from general default short alphabet c1 c2 c3 c4 show ?thesis by (intro conjI)
qed

theorem getShortName_precedence_witness:
  "getShortName \<lparr>icon_id = utf16 ''defaultProfile-icon''\<rparr> (\<lambda>s. s)
     \<lparr>profile_id = utf16 ''d'', name = utf16 ''Default'', shortName = Some (utf16 ''DF''),
      isDefault = True, isTransient = True\<rparr> = utf16 ''$(defaultProfile-icon)''
   \<and> getShortName \<lparr>icon_id = utf16 ''defaultProfile-icon''\<rparr> (\<lambda>s. s)
     \<lparr>profile_id = utf16 ''q'', name = utf16 ''x'', shortName = Some [], isDefault = False,
      isTransient = False\<rparr> = utf16 ''X''
   \<and> getShortName \<lparr>icon_id = utf16 ''defaultProfile-icon''\<rparr>
     (\<lambda>s. if s = [0xDF, 0x78] then utf16 ''SSX'' else s)
     \<lparr>profile_id = utf16 ''s'', name = [0xDF, 0x78, 0x79], shortName = None,
      isDefault = False, isTransient = False\<rparr> = utf16 ''SSX''"
  using getShortName_precedence
    [where icon = "\<lparr>icon_id = utf16 ''defaultProfile-icon''\<rparr>" and U = "\<lambda>s. s"
       and U' = "\<lambda>s. s"
       and p = "\<lparr>profile_id = utf16 ''d'', name = utf16 ''Default'',
                shortName = Some (utf16 ''DF''), isDefault = True, isTransient = True\<rparr>"
       and i' = "[]" and n' = "[]" and s' = None and t' = False]
    getShortName_precedence
    [where icon = "\<lparr>icon_id = utf16 ''defaultProfile-icon''\<rparr>" and U = "\<lambda>s. s"
       and U' = "\<lambda>s. s"
       and p = "\<lparr>profile_id = utf16 ''q'', name = utf16 ''x'', shortName = Some [],
                isDefault = False, isTransient = False\<rparr>"
       and i' = "[]" and n' = "[]" and s' = None and t' = False]
    getShortName_precedence
    [where icon = "\<lparr>icon_id = utf16 ''defaultProfile-icon''\<rparr>"
       and U = "\<lambda>s. if s = [0xDF, 0x78] then utf16 ''SSX'' else s"
       and U' = "\<lambda>s. s"
       and p = "\<lparr>profile_id = utf16 ''s'', name = [0xDF, 0x78, 0x79], shortName = None,
                isDefault = False, isTransient = False\<rparr>"
       and i' = "[]" and n' = "[]" and s' = None and t' = False]
  by (simp add: utf16_def truthy_def toUpperCase_def toUpperCase_ascii_def)

text \<open>
  Claim C6, as stated: a profile that is not default, has no usable \<open>shortName\<close> and is
  transient gets a token of two characters. The profile with the empty name is such a
  profile, and its token has one character.
\<close>

theorem transient_token_two_chars_counterexample:
  "\<not> isDefault \<lparr>profile_id = utf16 ''t'', name = [], shortName = None, isDefault = False,
       isTransient = True\<rparr>
   \<and> \<not> truthy (shortName \<lparr>profile_id = utf16 ''t'', name = [], shortName = None,
       isDefault = False, isTransient = True\<rparr>)
   \<and> isTransient \<lparr>profile_id = utf16 ''t'', name = [], shortName = None, isDefault = False,
       isTransient = True\<rparr>
   \<and> length (getShortName \<lparr>icon_id = utf16 ''defaultProfile-icon''\<rparr> (\<lambda>s. s)
       \<lparr>profile_id = utf16 ''t'', name = [], shortName = None, isDefault = False,
        isTransient = True\<rparr>) \<noteq> 2"
  by (simp add: getShortName_def truthy_def charAt_def utf16_def)

text \<open>
  Claim C6, amended. For a profile that is not default, has no usable \<open>shortName\<close> and
  is transient, \<open>getShortName\<close> returns \<open>T\<close> followed by the last character of the name
  (not the first) when the name is not empty, which is a token of two characters, and
  \<open>T\<close> alone when the name is empty. The function is total: no input makes it fail.
\<close>

theorem transient_token_last_char:
  assumes "\<not> isDefault p" and "\<not> truthy (shortName p)" and "isTransient p"
  shows "getShortName icon U p =
           (if name p = [] then utf16 ''T'' else utf16 ''T'' @ [last (name p)])
       \<and> (name p \<noteq> [] \<longrightarrow> length (getShortName icon U p) = 2)"
  using assms by (simp add: getShortName_def charAt_last utf16_def)

theorem transient_token_last_char_witness:
  "\<not> isDefault \<lparr>profile_id = utf16 ''t'', name = utf16 ''Work1'', shortName = None,
       isDefault = False, isTransient = True\<rparr>
   \<and> getShortName \<lparr>icon_id = utf16 ''defaultProfile-icon''\<rparr> (\<lambda>s. s)
       \<lparr>profile_id = utf16 ''t'', name = utf16 ''Work1'', shortName = None,
        isDefault = False, isTransient = True\<rparr> = utf16 ''T1''"
  using transient_token_last_char
    [where p = "\<lparr>profile_id = utf16 ''t'', name = utf16 ''Work1'', shortName = None,
          isDefault = False, isTransient = True\<rparr>"
       and icon = "\<lparr>icon_id = utf16 ''defaultProfile-icon''\<rparr>" and U = "\<lambda>s. s"]
  by (simp add: truthy_def utf16_def)

text \<open>
  Claim C9. For a profile that is not default, has no usable \<open>shortName\<close>, is transient
  and has the empty name, \<open>getShortName\<close> returns the one-character string \<open>T\<close>: the
  lookup of the last character of the empty name contributes the empty string.
\<close>

theorem empty_name_transient_is_T:
  assumes "\<not> isDefault p" and "\<not> truthy (shortName p)" and "isTransient p" and "name p = []"
  shows "getShortName icon U p = utf16 ''T'' \<and> length (getShortName icon U p) = 1"
  using assms by (simp add: getShortName_def charAt_def utf16_def)

theorem empty_name_transient_is_T_witness:
  "getShortName \<lparr>icon_id = utf16 ''defaultProfile-icon''\<rparr> (\<lambda>s. s)
     \<lparr>profile_id = utf16 ''t'', name = [], shortName = Some [], isDefault = False,
      isTransient = True\<rparr> = utf16 ''T''"
  using empty_name_transient_is_T
    [where p = "\<lparr>profile_id = utf16 ''t'', name = [], shortName = Some [],
          isDefault = False, isTransient = True\<rparr>"
       and icon = "\<lparr>icon_id = utf16 ''defaultProfile-icon''\<rparr>" and U = "\<lambda>s. s"]
  by (simp add: truthy_def)

section \<open>Switching the current profile\<close>

text \<open>
  Claim C1. A call of \<open>updateCurrentProfile\<close> with a target whose id differs from the
  id of the current profile awaits exactly the tasks that the registered listeners join
  during the dispatch: the tasks of the first listener, then those of the second, and so
  on, each listener being called in the world that the listeners before it have left. The
  returned promise stays unsettled exactly when one of these tasks never settles, so a
  failed task does not end the wait. When all of them have settled, the returned promise
  is rejected if and only if one of them was rejected, it then carries all the
  rejections, and it is fulfilled if and only if all of them were fulfilled. The current
  profile is the target whatever the tasks do.
\<close>

theorem updateCurrentProfile_awaits_all_joiners:
  assumes "profile_id (h (currentProfile this)) \<noteq> profile_id (h target)"
  shows "let r = updateCurrentProfile h this target pd w;
             ev = \<lparr>preserveData = pd, previous = currentProfile this, profile = target\<rparr>;
             ls = onDidChangeCurrentProfile this;
             tasks = concat (map (\<lambda>i. snd ((ls ! i) target ev
                                   (fst (fire_change (take i ls) target ev (w, [])))))
                                 [0..<length ls]);
             ends = map (\<lambda>t. t target) tasks
         in joiners r = tasks
          \<and> (returned r = NeverSettles \<longleftrightarrow> NeverSettles \<in> set ends)
          \<and> (NeverSettles \<notin> set ends \<longrightarrow>
               ((\<exists>agg. returned r = Rejected agg) \<longleftrightarrow> (\<exists>x. Rejected x \<in> set ends)))
          \<and> (\<forall>agg. returned r = Rejected agg \<longrightarrow>
               agg = rejections ends \<and> set agg = {x. Rejected x \<in> set ends})
          \<and> (returned r = Fulfilled \<longleftrightarrow> (\<forall>p\<in>set ends. p = Fulfilled))
          \<and> currentProfile (service r) = target"
proof -
  let ?ev = "\<lparr>preserveData = pd, previous = currentProfile this, profile = target\<rparr>"
  let ?ls = "onDidChangeCurrentProfile this"
  let ?res = "fire_change ?ls target ?ev (w, [])"
  let ?tasks = "concat (map (\<lambda>i. snd ((?ls ! i) target ?ev
      (fst (fire_change (take i ?ls) target ?ev (w, []))))) [0..<length ?ls])"
  let ?ends = "map (\<lambda>t. t target) ?tasks"
  have tasks: "snd ?res = ?tasks"
    using fire_change_tasks [of ?ls target ?ev w "[]"] by simp
  have r: "updateCurrentProfile h this target pd w =
      \<lparr>service = this\<lparr>currentProfile := target\<rparr>, world = fst ?res, joiners = ?tasks,
       returned = settled ?ends\<rparr>"
    using updateCurrentProfile_switch [OF assms, of pd w] by (simp only: Let_def tasks)
  have 1: "settled ?ends = NeverSettles \<longleftrightarrow> NeverSettles \<in> set ?ends"
    by (rule settled_NeverSettles)
  have 2: "NeverSettles \<notin> set ?ends \<longrightarrow>
      ((\<exists>agg. settled ?ends = Rejected agg) \<longleftrightarrow> (\<exists>x. Rejected x \<in> set ?ends))"
    unfolding settled_Rejected by blast
  have 3: "\<forall>agg. settled ?ends = Rejected agg \<longrightarrow>
      agg = rejections ?ends \<and> set agg = {x. Rejected x \<in> set ?ends}"
    by (simp add: settled_Rejected rejections_set)
  have 4: "settled ?ends = Fulfilled \<longleftrightarrow> (\<forall>p\<in>set ?ends. p = Fulfilled)"
    by (rule settled_Fulfilled)
  have 5: "joiners (updateCurrentProfile h this target pd w) = ?tasks"
    "returned (updateCurrentProfile h this target pd w) = settled ?ends"
    "currentProfile (service (updateCurrentProfile h this target pd w)) = target"
    by (simp_all add: r)
  show ?thesis
    unfolding Let_def 5 using 1 2 3 4 by (intro conjI) (rule refl | assumption)+
qed

theorem updateCurrentProfile_awaits_all_joiners_witness:
  "profile_id (example_heap 0) \<noteq> profile_id (example_heap 1)
   \<and> returned (updateCurrentProfile example_heap
        \<lparr>currentProfile = 0, onDidChangeCurrentProfile = [L1, L2],
         onDidUpdateCurrentProfile = []\<rparr> 1 True []) = Rejected [''disk full'']
   \<and> currentProfile (service (updateCurrentProfile example_heap
        \<lparr>currentProfile = 0, onDidChangeCurrentProfile = [L1, L2],
         onDidUpdateCurrentProfile = []\<rparr> 1 True [])) = 1
   \<and> returned (updateCurrentProfile example_heap
        \<lparr>currentProfile = 0, onDidChangeCurrentProfile = [L1, L_stuck],
         onDidUpdateCurrentProfile = []\<rparr> 1 True []) = NeverSettles"
proof -
  let ?this = "\<lparr>currentProfile = 0, onDidChangeCurrentProfile = [L1, L2],
         onDidUpdateCurrentProfile = []\<rparr>"
  let ?stuck = "\<lparr>currentProfile = 0, onDidChangeCurrentProfile = [L1, L_stuck],
         onDidUpdateCurrentProfile = []\<rparr>"
  have h: "profile_id (example_heap (currentProfile ?this)) \<noteq> profile_id (example_heap 1)"
    by (simp add: example_heap_def utf16_def)
  have h': "profile_id (example_heap (currentProfile ?stuck)) \<noteq> profile_id (example_heap 1)"
    by (simp add: example_heap_def utf16_def)
  show ?thesis
    using h updateCurrentProfile_awaits_all_joiners [OF h, where pd = True and w = "[]"]
      updateCurrentProfile_awaits_all_joiners [OF h', where pd = True and w = "[]"]
    by (simp add: ex_defs updateCurrentProfile_def settled_def rejections_def Let_def)
qed

text \<open>
  Claim C2. When the id of the target equals the id of the current profile,
  \<open>updateCurrentProfile\<close> returns at once with success, whatever \<open>preserveData\<close> is: no
  listener is called (the world is as before), no task is joined, and the service is
  unchanged; its current profile is still the same reference, also when the target is
  another object with the same id.
\<close>

theorem updateCurrentProfile_same_id_noop:
  assumes "profile_id (h (currentProfile this)) = profile_id (h target)"
  shows "updateCurrentProfile h this target pd w =
           \<lparr>service = this, world = w, joiners = [], returned = Fulfilled\<rparr>"
  using assms by (simp add: updateCurrentProfile_def)

theorem updateCurrentProfile_same_id_noop_witness:
  "profile_id (example_heap 1) = profile_id (example_heap 3) \<and> (1::nat) \<noteq> 3
   \<and> updateCurrentProfile example_heap (probed 1 [L1, L2] [U1]) 3 True ([], []) =
        \<lparr>service = probed 1 [L1, L2] [U1], world = ([], []), joiners = [],
         returned = Fulfilled\<rparr>"
proof -
  have h: "profile_id (example_heap (currentProfile (probed 1 [L1, L2] [U1]))) =
           profile_id (example_heap 3)"
    by (simp add: example_heap_def utf16_def probed_def)
  have ids: "profile_id (example_heap 1) = profile_id (example_heap 3)"
    by (simp add: example_heap_def utf16_def)
  show ?thesis
    using ids updateCurrentProfile_same_id_noop [OF h, of True "([], [])"]
    by simp
qed

text \<open>
  Claim C3. In a switch to a target with another id, the current profile is set to the
  target before the listeners are called: every call of a change listener reads the
  target as the current profile, every joined task reads the target, and the service
  holds the target whether or not the returned promise ever settles.
\<close>

theorem commit_visible_before_dispatch:
  assumes "profile_id (h cur) \<noteq> profile_id (h target)"
  shows "let r = updateCurrentProfile h (probed cur cls uls) target pd (w, [])
         in currentProfile (service r) = target
          \<and> (\<forall>c\<in>set (snd (world r)). \<exists>i e. c = ChangeListener i target e)
          \<and> returned r = settled (map (\<lambda>t. t target) (joiners r))"
  unfolding probed_switch [OF assms] by (auto simp: Let_def probed_def)

theorem commit_visible_before_dispatch_witness:
  "profile_id (example_heap 0) \<noteq> profile_id (example_heap 1)
   \<and> currentProfile (service (updateCurrentProfile example_heap
         (probed 0 [L1, L_stuck] [U1]) 1 False ([], []))) = 1
   \<and> snd (world (updateCurrentProfile example_heap
         (probed 0 [L1, L_stuck] [U1]) 1 False ([], []))) =
       [ChangeListener 0 1 \<lparr>preserveData = False, previous = 0, profile = 1\<rparr>,
        ChangeListener 1 1 \<lparr>preserveData = False, previous = 0, profile = 1\<rparr>]
   \<and> returned (updateCurrentProfile example_heap
         (probed 0 [L1, L_stuck] [U1]) 1 False ([], [])) = NeverSettles"
proof -
  have h: "profile_id (example_heap 0) \<noteq> profile_id (example_heap 1)"
    by (simp add: example_heap_def utf16_def)
  show ?thesis
    using h commit_visible_before_dispatch [OF h, of "[L1, L_stuck]" "[U1]" False "[]"]
    by (simp add: ex_defs updateCurrentProfile_def probed_def probe_change_def settled_def
        rejections_def Let_def)
qed

text \<open>
  Claim C7. In a switch to a target with another id, every registered change listener is
  called exactly once, in the order of registration, and all receive the same event: the
  previous profile, the target and the flag \<open>preserveData\<close>. With \<open>L1\<close>, \<open>L2\<close>, \<open>L3\<close>
  registered in this order the calls are those of \<open>L1\<close>, \<open>L2\<close>, \<open>L3\<close>, in this order.
\<close>

theorem change_listeners_called_once_in_order:
  assumes "profile_id (h cur) \<noteq> profile_id (h target)"
  shows "snd (world (updateCurrentProfile h (probed cur cls uls) target pd (w, []))) =
           map (\<lambda>i. ChangeListener i target
                      \<lparr>preserveData = pd, previous = cur, profile = target\<rparr>)
               [0..<length cls]"
  unfolding probed_switch [OF assms] by (simp add: Let_def)

theorem change_listeners_called_once_in_order_witness:
  "profile_id (example_heap 0) \<noteq> profile_id (example_heap 1)
   \<and> world (updateCurrentProfile example_heap
         (probed 0 (subscribe (subscribe (subscribe [] L1) L2) L3) []) 1 True ([], [])) =
       ([''L1'', ''L2'', ''L3''],
        [ChangeListener 0 1 \<lparr>preserveData = True, previous = 0, profile = 1\<rparr>,
         ChangeListener 1 1 \<lparr>preserveData = True, previous = 0, profile = 1\<rparr>,
         ChangeListener 2 1 \<lparr>preserveData = True, previous = 0, profile = 1\<rparr>])"
proof -
  have h: "profile_id (example_heap 0) \<noteq> profile_id (example_heap 1)"
    by (simp add: example_heap_def utf16_def)
  show ?thesis
    using h change_listeners_called_once_in_order
      [OF h, of "subscribe (subscribe (subscribe [] L1) L2) L3" "[]" True "[]"]
    by (simp add: ex_defs subscribe_def updateCurrentProfile_def probed_def probe_change_def
        Let_def)
qed

text \<open>
  Claim C8. The service does not interpret \<open>preserveData\<close>: two calls of
  \<open>updateCurrentProfile\<close> from the same state that differ in the flag only leave the same
  service behind, and the flag reaches every listener unchanged, in the event.
\<close>

theorem preserveData_not_interpreted:
  "service (updateCurrentProfile h this target True w) =
   service (updateCurrentProfile h this target False w)
   \<and> (\<forall>c\<in>set (snd (world (updateCurrentProfile h (probed cur cls uls) target pd (w', [])))).
        \<exists>i e. c = ChangeListener i target e \<and> preserveData e = pd)"
proof -
  have "service (updateCurrentProfile h this target True w) =
        service (updateCurrentProfile h this target False w)"
    by (simp add: updateCurrentProfile_def Let_def split: prod.splits)
  moreover have "\<forall>c\<in>set (snd (world (updateCurrentProfile h (probed cur cls uls) target pd (w', [])))).
        \<exists>i e. c = ChangeListener i target e \<and> preserveData e = pd"
  proof (cases "profile_id (h cur) = profile_id (h target)")
    case True
    then show ?thesis by (simp add: updateCurrentProfile_def probed_def)
  next
    case False
    show ?thesis unfolding probed_switch [OF False] by (auto simp: Let_def)
  qed
  ultimately show ?thesis by blast
qed

theorem preserveData_not_interpreted_witness:
  "service (updateCurrentProfile example_heap (probed 0 [L1] [U1]) 1 True ([], [])) =
   service (updateCurrentProfile example_heap (probed 0 [L1] [U1]) 1 False ([], []))
   \<and> snd (world (updateCurrentProfile example_heap (probed 0 [L1] [U1]) 1 False ([], []))) =
       [ChangeListener 0 1 \<lparr>preserveData = False, previous = 0, profile = 1\<rparr>]
   \<and> snd (world (updateCurrentProfile example_heap (probed 0 [L1] [U1]) 1 True ([], []))) =
       [ChangeListener 0 1 \<lparr>preserveData = True, previous = 0, profile = 1\<rparr>]"
  using preserveData_not_interpreted
          [of example_heap "probed 0 [L1] [U1]" 1 "([], [])" 0 "[L1]" "[U1]" False "[]"]
  by (simp add: ex_defs updateCurrentProfile_def probed_def probe_change_def Let_def)

section \<open>Reconciliation with the catalog\<close>

text \<open>
  Claim C4. When the list \<open>updated\<close> of a batch has an entry with the id of the current
  profile, the first such entry becomes the current profile, every update listener is
  called once, with no payload, and no change listener is called. When no entry of
  \<open>updated\<close> has that id, the service and the world stay as they are.
\<close>

theorem onDidChangeProfiles_reconciles:
  "(k < length (updated e) \<and> profile_id (h (updated e ! k)) = profile_id (h cur) \<and>
        (\<forall>j<k. profile_id (h (updated e ! j)) \<noteq> profile_id (h cur)) \<longrightarrow>
      onDidChangeProfiles h (probed cur cls uls) e (w, []) =
        (probed (updated e ! k) cls uls,
         (fire_update uls (updated e ! k) w,
          map (\<lambda>i. UpdateListener i (updated e ! k)) [0..<length uls])))
   \<and> ((\<forall>p\<in>set (updated e). profile_id (h p) \<noteq> profile_id (h cur)) \<longrightarrow>
      onDidChangeProfiles h (probed cur cls uls) e (w, []) = (probed cur cls uls, (w, [])))"
proof (intro conjI impI)
  assume "k < length (updated e) \<and> profile_id (h (updated e ! k)) = profile_id (h cur) \<and>
        (\<forall>j<k. profile_id (h (updated e ! j)) \<noteq> profile_id (h cur))"
  then show "onDidChangeProfiles h (probed cur cls uls) e (w, []) =
        (probed (updated e ! k) cls uls,
         (fire_update uls (updated e ! k) w,
          map (\<lambda>i. UpdateListener i (updated e ! k)) [0..<length uls]))"
    by (intro probed_reconcile_found) simp_all
next
  assume "\<forall>p\<in>set (updated e). profile_id (h p) \<noteq> profile_id (h cur)"
  then have "find (\<lambda>p. profile_id (h cur) = profile_id (h p)) (updated e) = None"
    by (intro find_none) auto
  then show "onDidChangeProfiles h (probed cur cls uls) e (w, []) = (probed cur cls uls, (w, []))"
    by (simp add: onDidChangeProfiles_def probed_def)
qed

theorem onDidChangeProfiles_reconciles_witness:
  "onDidChangeProfiles example_heap (probed 1 [L1] [U1, U1])
      \<lparr>added = [], removed = [], updated = [4, 3, 2]\<rparr> ([], []) =
     (probed 3 [L1] [U1, U1], ([''U1'', ''U1''], [UpdateListener 0 3, UpdateListener 1 3]))
   \<and> onDidChangeProfiles example_heap (probed 1 [L1] [U1, U1])
      \<lparr>added = [3], removed = [2], updated = [0, 4]\<rparr> ([], []) =
     (probed 1 [L1] [U1, U1], ([], []))"
proof -
  have a: "onDidChangeProfiles example_heap (probed 1 [L1] [U1, U1])
      \<lparr>added = [], removed = [], updated = [4, 3, 2]\<rparr> ([], []) =
     (probed 3 [L1] [U1, U1], ([''U1'', ''U1''], [UpdateListener 0 3, UpdateListener 1 3]))"
    using onDidChangeProfiles_reconciles
      [of 1 "\<lparr>added = [], removed = [], updated = [4, 3, 2]\<rparr>" example_heap 1 "[L1]"
          "[U1, U1]" "[]"]
    by (simp add: example_heap_def utf16_def U1_def)
  have b: "onDidChangeProfiles example_heap (probed 1 [L1] [U1, U1])
      \<lparr>added = [3], removed = [2], updated = [0, 4]\<rparr> ([], []) =
     (probed 1 [L1] [U1, U1], ([], []))"
    using onDidChangeProfiles_reconciles
      [of 0 "\<lparr>added = [3], removed = [2], updated = [0, 4]\<rparr>" example_heap 1 "[L1]"
          "[U1, U1]" "[]"]
    by (simp add: example_heap_def utf16_def)
  from a b show ?thesis by simp
qed

text \<open>
  Claim C10. Reconciliation looks at ids only: two heaps that agree on the ids of all
  objects give the same result, so no other field is compared. An updated entry whose
  fields are all equal to those of the current profile still replaces the current
  reference and the update listeners are still called.
\<close>

theorem reconciliation_by_id_alone:
  "((\<forall>r. profile_id (h r) = profile_id (h' r)) \<longrightarrow>
      onDidChangeProfiles h this e w = onDidChangeProfiles h' this e w)
   \<and> (k < length (updated e) \<and> h (updated e ! k) = h cur \<and>
        (\<forall>j<k. profile_id (h (updated e ! j)) \<noteq> profile_id (h cur)) \<longrightarrow>
      (let r = onDidChangeProfiles h (probed cur cls uls) e (w', [])
       in currentProfile (fst r) = updated e ! k
        \<and> snd (snd r) = map (\<lambda>i. UpdateListener i (updated e ! k)) [0..<length uls]))"
proof (intro conjI impI)
  assume "\<forall>r. profile_id (h r) = profile_id (h' r)"
  then show "onDidChangeProfiles h this e w = onDidChangeProfiles h' this e w"
    by (simp add: onDidChangeProfiles_def)
next
  assume a: "k < length (updated e) \<and> h (updated e ! k) = h cur \<and>
        (\<forall>j<k. profile_id (h (updated e ! j)) \<noteq> profile_id (h cur))"
  then have "profile_id (h (updated e ! k)) = profile_id (h cur)" by simp
  with a have "onDidChangeProfiles h (probed cur cls uls) e (w', []) =
           (probed (updated e ! k) cls uls,
            (fire_update uls (updated e ! k) w',
             map (\<lambda>i. UpdateListener i (updated e ! k)) [0..<length uls]))"
    by (intro probed_reconcile_found) simp_all
  then show "let r = onDidChangeProfiles h (probed cur cls uls) e (w', [])
       in currentProfile (fst r) = updated e ! k
        \<and> snd (snd r) = map (\<lambda>i. UpdateListener i (updated e ! k)) [0..<length uls]"
    by (simp add: probed_def)
qed

theorem reconciliation_by_id_alone_witness:
  "example_heap 2 = example_heap 1 \<and> (2::nat) \<noteq> 1
   \<and> currentProfile (fst (onDidChangeProfiles example_heap (probed 1 [L1] [U1])
        \<lparr>added = [], removed = [], updated = [4, 2]\<rparr> ([], []))) = 2
   \<and> snd (snd (onDidChangeProfiles example_heap (probed 1 [L1] [U1])
        \<lparr>added = [], removed = [], updated = [4, 2]\<rparr> ([], []))) = [UpdateListener 0 2]
   \<and> onDidChangeProfiles example_heap (probed 1 [L1] [U1])
        \<lparr>added = [], removed = [], updated = [4, 2]\<rparr> ([], []) =
      onDidChangeProfiles (\<lambda>r. (example_heap r)\<lparr>name := utf16 ''renamed''\<rparr>) (probed 1 [L1] [U1])
        \<lparr>added = [], removed = [], updated = [4, 2]\<rparr> ([], [])"
proof -
  have same: "example_heap 2 = example_heap 1" "(2::nat) \<noteq> 1"
    by (simp_all add: example_heap_def utf16_def)
  have first: "\<forall>j<1. profile_id (example_heap
      (updated \<lparr>added = [], removed = [], updated = [4, 2::nat]\<rparr> ! j)) \<noteq>
      profile_id (example_heap 1)"
    by (simp add: example_heap_def utf16_def)
  have ids: "\<forall>r. profile_id (example_heap r) =
      profile_id ((example_heap r)\<lparr>name := utf16 ''renamed''\<rparr>)"
    by simp
  let ?e = "\<lparr>added = [], removed = [], updated = [4, 2::nat]\<rparr>"
  note inst = reconciliation_by_id_alone
        [where h = example_heap and h' = "\<lambda>r. (example_heap r)\<lparr>name := utf16 ''renamed''\<rparr>"
           and this = "probed 1 [L1] [U1]" and e = ?e and w = "([], [])" and k = 1
           and cur = 1 and cls = "[L1]" and uls = "[U1]" and w' = "[]"]
  from inst ids have indep: "onDidChangeProfiles example_heap (probed 1 [L1] [U1]) ?e ([], []) =
      onDidChangeProfiles (\<lambda>r. (example_heap r)\<lparr>name := utf16 ''renamed''\<rparr>) (probed 1 [L1] [U1])
        ?e ([], [])"
    by blast
  have pre: "1 < length (updated ?e) \<and> example_heap (updated ?e ! 1) = example_heap 1 \<and>
      (\<forall>j<1. profile_id (example_heap (updated ?e ! j)) \<noteq> profile_id (example_heap 1))"
    using same first by simp
  from inst pre have repl: "let r = onDidChangeProfiles example_heap (probed 1 [L1] [U1]) ?e ([], [])
       in currentProfile (fst r) = updated ?e ! 1
        \<and> snd (snd r) = map (\<lambda>i. UpdateListener i (updated ?e ! 1)) [0..<length [U1]]"
    by blast
  from repl have "currentProfile (fst (onDidChangeProfiles example_heap (probed 1 [L1] [U1])
        ?e ([], []))) = 2
   \<and> snd (snd (onDidChangeProfiles example_heap (probed 1 [L1] [U1]) ?e ([], []))) =
       [UpdateListener 0 2]"
    by (simp add: Let_def)
  with same indep show ?thesis by blast
qed

end
